theory Spec2Isabelle
  imports Complex_Main "HOL-Library.Word" "HOL-Library.Multiset" "HOL-Library.Log_Nat"
begin

section \<open>Strings of the host language\<close>

text \<open>
  A string of the source language is a sequence of 16-bit code units. ASCII literals of
  the source are written through \<open>ustr\<close>.
\<close>

type_synonym jsstring = "16 word list"

definition ustr :: "string \<Rightarrow> jsstring" where
  "ustr s = map (\<lambda>c. of_nat (of_char c)) s"

text \<open>
  \<open>String.prototype.trim\<close> removes, at both ends, the code units of the productions
  WhiteSpace and LineTerminator: TAB, LF, VT, FF, CR, SPACE, NBSP, U+1680, U+2000 to U+200A,
  U+2028, U+2029, U+202F, U+205F, U+3000 and U+FEFF.
\<close>

definition isStrWhiteSpaceChar :: "16 word \<Rightarrow> bool" where
  "isStrWhiteSpaceChar c \<longleftrightarrow>
     c = 0x0009 \<or> c = 0x000A \<or> c = 0x000B \<or> c = 0x000C \<or> c = 0x000D \<or> c = 0x0020 \<or>
     c = 0x00A0 \<or> c = 0x1680 \<or> (0x2000 \<le> c \<and> c \<le> 0x200A) \<or> c = 0x2028 \<or> c = 0x2029 \<or>
     c = 0x202F \<or> c = 0x205F \<or> c = 0x3000 \<or> c = 0xFEFF"

definition trimStart :: "jsstring \<Rightarrow> jsstring" where
  "trimStart s = dropWhile isStrWhiteSpaceChar s"

definition trimEnd :: "jsstring \<Rightarrow> jsstring" where
  "trimEnd s = rev (dropWhile isStrWhiteSpaceChar (rev s))"

definition trim :: "jsstring \<Rightarrow> jsstring" where
  "trim s = trimEnd (trimStart s)"

text \<open>A string is falsy exactly when it is empty: \<open>!s\<close> and \<open>s || d\<close>.\<close>

definition truthy :: "jsstring \<Rightarrow> bool" where
  "truthy s \<longleftrightarrow> s \<noteq> []"

definition orElse :: "jsstring \<Rightarrow> jsstring \<Rightarrow> jsstring" where
  "orElse s d = (if truthy s then s else d)"

section \<open>Numbers of the host language\<close>

text \<open>
  A Number is an IEEE 754 double: not-a-number, the two infinities, or a finite value,
  kept here as the rational it denotes. The two zeros are one value \<open>Fin 0\<close>: both are
  falsy, \<open>Math.max(0, -0)\<close> is \<open>+0\<close>, and both serialise as \<open>0\<close>.
\<close>

datatype jsnum = NaN | NegInf | Fin rat | PosInf

text \<open>
  The Number value for a rational (the operation written with a blackboard F in ECMA-262):
  the nearest double, ties to the even significand, and an infinity from \<open>2 ^ 1024\<close> on.
  \<open>floorlog2 a\<close> is the binary exponent of \<open>a\<close>; below \<open>2 ^ - 1022\<close> the spacing of
  the doubles stays that of the subnormal range. The exact value of a literal is rounded,
  as the engines do (ECMA-262 also allows a literal of more than 20 significant digits to
  be cut at the 20th first).
\<close>

definition roundHalfEven :: "rat \<Rightarrow> int" where
  "roundHalfEven r =
     (let f = \<lfloor>r\<rfloor>; d = r - of_int f
      in if d < 1/2 then f else if 1/2 < d then f + 1 else if even f then f else f + 1)"

definition floorlog2 :: "rat \<Rightarrow> int" where
  "floorlog2 a =
     (let (p, d) = quotient_of a; k = bitlen p - bitlen d
      in if power_int 2 k \<le> a then k else k - 1)"

definition toDouble :: "rat \<Rightarrow> jsnum" where
  "toDouble q =
     (if q = 0 then Fin 0
      else let a = \<bar>q\<bar>;
               e = max (floorlog2 a) (- 1022);
               ulp = power_int 2 (e - 52);
               v = of_int (roundHalfEven (a / ulp)) * ulp
           in if power_int 2 1024 \<le> v then (if 0 < q then PosInf else NegInf)
              else Fin (sgn q * v))"

subsection \<open>\<open>Number(string)\<close>\<close>

text \<open>
  The conversion StringToNumber of ECMA-262 on the grammar StringNumericLiteral: white
  space around the literal is dropped, the empty literal is \<open>+0\<close>, a literal is a signed
  decimal literal (digits, fraction, exponent, or \<open>Infinity\<close>) or an unsigned binary,
  octal or hexadecimal integer literal, and every other string is not-a-number.
\<close>

definition isDigitOf :: "nat \<Rightarrow> 16 word \<Rightarrow> bool" where
  "isDigitOf b c \<longleftrightarrow>
     (0x30 \<le> c \<and> c \<le> 0x39 \<and> unat c - 0x30 < b) \<or>
     (b = 16 \<and> ((0x41 \<le> c \<and> c \<le> 0x46) \<or> (0x61 \<le> c \<and> c \<le> 0x66)))"

definition digitValue :: "16 word \<Rightarrow> nat" where
  "digitValue c =
     (if c \<le> 0x39 then unat c - 0x30 else if c \<le> 0x46 then unat c - 0x41 + 10
      else unat c - 0x61 + 10)"

definition digitsValue :: "nat \<Rightarrow> jsstring \<Rightarrow> nat" where
  "digitsValue b ds = foldl (\<lambda>a c. b * a + digitValue c) 0 ds"

definition allDigits :: "nat \<Rightarrow> jsstring \<Rightarrow> bool" where
  "allDigits b ds \<longleftrightarrow> ds \<noteq> [] \<and> list_all (isDigitOf b) ds"

text \<open>ExponentPart, or nothing: \<open>e\<close> or \<open>E\<close>, an optional sign, decimal digits.\<close>

definition exponentPart :: "jsstring \<Rightarrow> int option" where
  "exponentPart t =
     (case t of
        [] \<Rightarrow> Some 0
      | c # r \<Rightarrow>
          if c = 0x65 \<or> c = 0x45 then
            (case r of
               [] \<Rightarrow> None
             | d # r' \<Rightarrow>
                 if d = 0x2B then
                   (if allDigits 10 r' then Some (int (digitsValue 10 r')) else None)
                 else if d = 0x2D then
                   (if allDigits 10 r' then Some (- int (digitsValue 10 r')) else None)
                 else if allDigits 10 r then Some (int (digitsValue 10 r)) else None)
          else None)"

definition strUnsignedDecimalLiteral :: "jsstring \<Rightarrow> jsnum option" where
  "strUnsignedDecimalLiteral t =
     (if t = ustr ''Infinity'' then Some PosInf
      else
        let ip = takeWhile (isDigitOf 10) t; r1 = dropWhile (isDigitOf 10) t;
            dot = (r1 \<noteq> [] \<and> hd r1 = 0x2E);
            fp = (if dot then takeWhile (isDigitOf 10) (tl r1) else []);
            r2 = (if dot then dropWhile (isDigitOf 10) (tl r1) else r1)
        in if ip = [] \<and> fp = [] then None
           else (case exponentPart r2 of
                   None \<Rightarrow> None
                 | Some e \<Rightarrow>
                     Some (toDouble ((of_nat (digitsValue 10 ip)
                             + of_nat (digitsValue 10 fp) / 10 ^ length fp) * power_int 10 e))))"

definition negate :: "jsnum \<Rightarrow> jsnum" where
  "negate x = (case x of NaN \<Rightarrow> NaN | NegInf \<Rightarrow> PosInf | PosInf \<Rightarrow> NegInf | Fin q \<Rightarrow> Fin (- q))"

definition strDecimalLiteral :: "jsstring \<Rightarrow> jsnum option" where
  "strDecimalLiteral t =
     (case t of
        [] \<Rightarrow> None
      | c # r \<Rightarrow>
          if c = 0x2B then strUnsignedDecimalLiteral r
          else if c = 0x2D then map_option negate (strUnsignedDecimalLiteral r)
          else strUnsignedDecimalLiteral t)"

definition nonDecimalIntegerLiteral :: "jsstring \<Rightarrow> jsnum option" where
  "nonDecimalIntegerLiteral t =
     (case t of
        z # p # ds \<Rightarrow>
          if z \<noteq> 0x30 then None
          else if p = 0x62 \<or> p = 0x42 then
            (if allDigits 2 ds then Some (toDouble (of_nat (digitsValue 2 ds))) else None)
          else if p = 0x6F \<or> p = 0x4F then
            (if allDigits 8 ds then Some (toDouble (of_nat (digitsValue 8 ds))) else None)
          else if p = 0x78 \<or> p = 0x58 then
            (if allDigits 16 ds then Some (toDouble (of_nat (digitsValue 16 ds))) else None)
          else None
      | _ \<Rightarrow> None)"

definition Number :: "jsstring \<Rightarrow> jsnum" where
  "Number s =
     (let t = trim s
      in if t = [] then Fin 0
         else (case nonDecimalIntegerLiteral t of
                 Some n \<Rightarrow> n
               | None \<Rightarrow> (case strDecimalLiteral t of Some n \<Rightarrow> n | None \<Rightarrow> NaN)))"

text \<open>\<open>x || d\<close> on numbers: not-a-number and zero are falsy.\<close>

definition numOr :: "jsnum \<Rightarrow> jsnum \<Rightarrow> jsnum" where
  "numOr x d = (if x = NaN \<or> x = Fin 0 then d else x)"

text \<open>\<open>Math.max\<close> of two numbers: not-a-number if either is, else the larger.\<close>

definition mathMax :: "jsnum \<Rightarrow> jsnum \<Rightarrow> jsnum" where
  "mathMax a b =
     (case (a, b) of
        (NaN, _) \<Rightarrow> NaN
      | (_, NaN) \<Rightarrow> NaN
      | (PosInf, _) \<Rightarrow> PosInf
      | (_, PosInf) \<Rightarrow> PosInf
      | (NegInf, y) \<Rightarrow> y
      | (x, NegInf) \<Rightarrow> x
      | (Fin p, Fin q) \<Rightarrow> Fin (max p q))"

definition isFinite :: "jsnum \<Rightarrow> bool" where
  "isFinite x = (case x of Fin _ \<Rightarrow> True | _ \<Rightarrow> False)"

definition isNonNegative :: "jsnum \<Rightarrow> bool" where
  "isNonNegative x = (case x of Fin q \<Rightarrow> 0 \<le> q | PosInf \<Rightarrow> True | _ \<Rightarrow> False)"

definition isNonNegativeInteger :: "jsnum \<Rightarrow> bool" where
  "isNonNegativeInteger x = (case x of Fin q \<Rightarrow> 0 \<le> q \<and> of_int \<lfloor>q\<rfloor> = q | _ \<Rightarrow> False)"

section \<open>The types of the configuration\<close>

datatype BuiltInTool = Web | Code | Retrieval | Image | Vision

datatype ActionType = Openapi | JsonRpc | Graphql | Webhook

datatype AuthType = AuthNone | ApiKey | Oauth2

record Auth =
  type :: AuthType
  instructions :: "jsstring option"

record CustomAction =
  name :: jsstring
  description :: "jsstring option"
  type :: ActionType
  specUrlOrInline :: "jsstring option"
  auth :: "Auth option"
  rateLimitPerMinute :: "jsnum option"
  allowedDomains :: "jsstring list option"

datatype MemoryScope = Conversation | User

record MemoryPolicy =
  enabled :: bool
  scope :: "MemoryScope option"
  dataRetentionDays :: "jsnum option"

record SafetyPolicy =
  jailbreakDefense :: "bool option"
  blockDisallowedContent :: "bool option"
  piiRedaction :: "bool option"
  customDisallowedPhrases :: "jsstring list option"

record ConversationStarter =
  title :: jsstring
  prompt :: jsstring

datatype WritingTone = Casual | Formal | Technical | Friendly | Playful | Neutral

datatype EmojiUse = EmojiNone | Light | Moderate | Heavy

datatype ResponseLength = Short | Medium | Long

record PersonaStyle =
  writingTone :: "WritingTone option"
  emojiUse :: "EmojiUse option"
  responseLength :: "ResponseLength option"

record Knowledge =
  enabled :: bool
  documents :: "jsstring list option"

record CustomGPTConfig =
  schemaVersion :: jsstring
  name :: jsstring
  description :: "jsstring option"
  instructions :: jsstring
  language :: "jsstring option"
  persona :: "PersonaStyle option"
  builtInTools :: "BuiltInTool list option"
  customActions :: "CustomAction list option"
  knowledge :: "Knowledge option"
  memory :: "MemoryPolicy option"
  safety :: "SafetyPolicy option"
  conversationStarters :: "ConversationStarter list option"
  sampleQuestions :: "jsstring list option"
  tags :: "jsstring list option"
  createdAt :: "jsstring option"

section \<open>The state of the component\<close>

text \<open>
  One field for each \<open>useState\<close> variable of \<open>CustomGPTSchemaGenerator\<close>, under the
  variable's name. A setter \<open>setX v\<close> of the source is the record update \<open>s\<lparr>X := v\<rparr>\<close>.
\<close>

record editor =
  name :: jsstring
  description :: jsstring
  instructions :: jsstring
  language :: jsstring
  tone :: WritingTone
  emoji :: EmojiUse
  lengthPref :: ResponseLength
  toolWeb :: bool
  toolCode :: bool
  toolRetrieval :: bool
  toolImage :: bool
  toolVision :: bool
  actions :: "CustomAction list"
  actionDraft :: CustomAction
  knowledgeEnabled :: bool
  knowledgeDocs :: "jsstring list"
  docDraft :: jsstring
  memoryEnabled :: bool
  memoryScope :: MemoryScope
  retention :: jsstring
  jailbreakDefense :: bool
  blockDisallowed :: bool
  piiRedaction :: bool
  customPhrases :: "jsstring list"
  phraseDraft :: jsstring
  starters :: "ConversationStarter list"
  starterTitle :: jsstring
  starterPrompt :: jsstring
  sampleQs :: "jsstring list"
  sampleDraft :: jsstring
  tags :: "jsstring list"
  tagDraft :: jsstring
  copied :: bool

text \<open>The draft \<open>{ name: "", type: "openapi", specUrlOrInline: "" }\<close>.\<close>

definition emptyActionDraft :: CustomAction where
  "emptyActionDraft =
     \<lparr> CustomAction.name = [], CustomAction.description = None, CustomAction.type = Openapi,
       specUrlOrInline = Some [], auth = None, rateLimitPerMinute = None,
       allowedDomains = None \<rparr>"

text \<open>
  The initial values of the state variables, read off \<open>defaultConfig\<close>
  (\<open>String(180)\<close> is \<open>"180"\<close>).
\<close>

definition initialState :: editor where
  "initialState =
     \<lparr> editor.name = ustr ''Untitled Custom GPT'',
       editor.description = [],
       editor.instructions = ustr ''You are a helpful assistant.'',
       editor.language = ustr ''en'',
       tone = Friendly, emoji = Light, lengthPref = Medium,
       toolWeb = True, toolCode = False, toolRetrieval = False, toolImage = False,
       toolVision = False,
       actions = [], actionDraft = emptyActionDraft,
       knowledgeEnabled = False, knowledgeDocs = [], docDraft = [],
       memoryEnabled = False, memoryScope = User, retention = ustr ''180'',
       editor.jailbreakDefense = True, blockDisallowed = True, editor.piiRedaction = False,
       customPhrases = [], phraseDraft = [],
       starters = [\<lparr> title = ustr ''What can you do?'',
                     prompt = ustr ''Give me a quick overview of your abilities.'' \<rparr>],
       starterTitle = [], starterPrompt = [],
       sampleQs = [ustr ''How do I get started?''], sampleDraft = [],
       editor.tags = [ustr ''starter''], tagDraft = [],
       copied = False \<rparr>"

subsection \<open>The tool flags\<close>

definition toolFlag :: "BuiltInTool \<Rightarrow> editor \<Rightarrow> bool" where
  "toolFlag t s = (case t of Web \<Rightarrow> toolWeb s | Code \<Rightarrow> toolCode s
     | Retrieval \<Rightarrow> toolRetrieval s | Image \<Rightarrow> toolImage s | Vision \<Rightarrow> toolVision s)"

definition setTool :: "BuiltInTool \<Rightarrow> bool \<Rightarrow> editor \<Rightarrow> editor" where
  "setTool t b s = (case t of Web \<Rightarrow> s\<lparr>toolWeb := b\<rparr> | Code \<Rightarrow> s\<lparr>toolCode := b\<rparr>
     | Retrieval \<Rightarrow> s\<lparr>toolRetrieval := b\<rparr> | Image \<Rightarrow> s\<lparr>toolImage := b\<rparr>
     | Vision \<Rightarrow> s\<lparr>toolVision := b\<rparr>)"

text \<open>
  A click on the controlled checkbox of \<open>Toggle\<close> reports \<open>e.target.checked\<close>, the negation
  of the flag it displays, to the flag's setter.
\<close>

definition toggleTool :: "editor \<Rightarrow> BuiltInTool \<Rightarrow> editor" where
  "toggleTool s t = setTool t (\<not> toolFlag t s) s"

text \<open>The canonical order of the tools.\<close>

definition allTools :: "BuiltInTool list" where
  "allTools = [Web, Code, Retrieval, Image, Vision]"

text \<open>The array \<open>builtIn\<close> of \<open>output\<close>, after its five conditional pushes.\<close>

definition builtIn :: "editor \<Rightarrow> BuiltInTool list" where
  "builtIn s =
     (let b0 = [];
          b1 = (if toolWeb s then b0 @ [Web] else b0);
          b2 = (if toolCode s then b1 @ [Code] else b1);
          b3 = (if toolRetrieval s then b2 @ [Retrieval] else b2);
          b4 = (if toolImage s then b3 @ [Image] else b3);
          b5 = (if toolVision s then b4 @ [Vision] else b4)
      in b5)"

section \<open>The derived document\<close>

text \<open>The expression \<open>Math.max(0, Number(retention) || 0)\<close>.\<close>

definition coerceRetention :: "jsstring \<Rightarrow> jsnum" where
  "coerceRetention r = mathMax (Fin 0) (numOr (Number r) (Fin 0))"

text \<open>
  The body of the \<open>useMemo\<close> callback of \<open>output\<close> (the name is a keyword
  here, hence \<open>output_doc\<close>). It reads the state variables and the
  clock: \<open>now\<close> stands for the string \<open>new Date().toISOString()\<close> at the instant of the
  derivation.
\<close>

definition output_doc :: "editor \<Rightarrow> jsstring \<Rightarrow> CustomGPTConfig" where
  "output_doc s now =
     \<lparr> schemaVersion = ustr ''1.0'',
       CustomGPTConfig.name = editor.name s,
       CustomGPTConfig.description = Some (editor.description s),
       CustomGPTConfig.instructions = editor.instructions s,
       CustomGPTConfig.language = Some (editor.language s),
       persona = Some \<lparr> writingTone = Some (tone s), emojiUse = Some (emoji s),
                        responseLength = Some (lengthPref s) \<rparr>,
       builtInTools = Some (builtIn s),
       customActions = Some (actions s),
       knowledge = Some \<lparr> Knowledge.enabled = knowledgeEnabled s,
                          documents = Some (knowledgeDocs s) \<rparr>,
       memory = Some \<lparr> MemoryPolicy.enabled = memoryEnabled s, scope = Some (memoryScope s),
                       dataRetentionDays = Some (coerceRetention (retention s)) \<rparr>,
       safety = Some \<lparr> SafetyPolicy.jailbreakDefense = Some (editor.jailbreakDefense s),
                       blockDisallowedContent = Some (blockDisallowed s),
                       SafetyPolicy.piiRedaction = Some (editor.piiRedaction s),
                       customDisallowedPhrases = Some (customPhrases s) \<rparr>,
       conversationStarters = Some (starters s),
       sampleQuestions = Some (sampleQs s),
       CustomGPTConfig.tags = Some (editor.tags s),
       createdAt = Some now \<rparr>"

text \<open>The dependency array of the \<open>useMemo\<close> call, in its order.\<close>

definition dependencies where
  "dependencies s =
     (editor.name s, editor.description s, editor.instructions s, editor.language s,
      tone s, emoji s, lengthPref s,
      toolWeb s, toolCode s, toolRetrieval s, toolImage s, toolVision s,
      actions s, knowledgeEnabled s, knowledgeDocs s, memoryEnabled s, memoryScope s,
      retention s, editor.jailbreakDefense s, blockDisallowed s, editor.piiRedaction s,
      customPhrases s, starters s, sampleQs s, editor.tags s)"

section \<open>The mutators\<close>

text \<open>
  \<open>prev.filter((_, idx) => idx !== i)\<close>: the elements whose index is not \<open>i\<close>. The index
  is an integer here, as the callers pass the index of a rendered element.
\<close>

definition removeAt :: "int \<Rightarrow> 'a list \<Rightarrow> 'a list" where
  "removeAt i prev = map snd (filter (\<lambda>(idx, _). int idx \<noteq> i) (enumerate 0 prev))"

definition addAction :: "editor \<Rightarrow> editor" where
  "addAction s =
     (if \<not> truthy (trim (CustomAction.name (actionDraft s))) then s
      else s\<lparr> actions := actions s @ [actionDraft s], actionDraft := emptyActionDraft \<rparr>)"

definition removeAction :: "int \<Rightarrow> editor \<Rightarrow> editor" where
  "removeAction i s = s\<lparr> actions := removeAt i (actions s) \<rparr>"

definition addDoc :: "editor \<Rightarrow> editor" where
  "addDoc s =
     (if \<not> truthy (trim (docDraft s)) then s
      else s\<lparr> knowledgeDocs := knowledgeDocs s @ [trim (docDraft s)], docDraft := [] \<rparr>)"

definition removeDoc :: "int \<Rightarrow> editor \<Rightarrow> editor" where
  "removeDoc i s = s\<lparr> knowledgeDocs := removeAt i (knowledgeDocs s) \<rparr>"

definition addPhrase :: "editor \<Rightarrow> editor" where
  "addPhrase s =
     (if \<not> truthy (trim (phraseDraft s)) then s
      else s\<lparr> customPhrases := customPhrases s @ [trim (phraseDraft s)], phraseDraft := [] \<rparr>)"

definition removePhrase :: "int \<Rightarrow> editor \<Rightarrow> editor" where
  "removePhrase i s = s\<lparr> customPhrases := removeAt i (customPhrases s) \<rparr>"

definition addStarter :: "editor \<Rightarrow> editor" where
  "addStarter s =
     (if \<not> truthy (trim (starterTitle s)) \<or> \<not> truthy (trim (starterPrompt s)) then s
      else s\<lparr> starters := starters s @
                 [\<lparr> title = trim (starterTitle s), prompt = trim (starterPrompt s) \<rparr>],
              starterTitle := [], starterPrompt := [] \<rparr>)"

definition removeStarter :: "int \<Rightarrow> editor \<Rightarrow> editor" where
  "removeStarter i s = s\<lparr> starters := removeAt i (starters s) \<rparr>"

definition addSample :: "editor \<Rightarrow> editor" where
  "addSample s =
     (if \<not> truthy (trim (sampleDraft s)) then s
      else s\<lparr> sampleQs := sampleQs s @ [trim (sampleDraft s)], sampleDraft := [] \<rparr>)"

definition removeSample :: "int \<Rightarrow> editor \<Rightarrow> editor" where
  "removeSample i s = s\<lparr> sampleQs := removeAt i (sampleQs s) \<rparr>"

definition addTag :: "editor \<Rightarrow> editor" where
  "addTag s =
     (if \<not> truthy (trim (tagDraft s)) then s
      else s\<lparr> editor.tags := editor.tags s @ [trim (tagDraft s)], tagDraft := [] \<rparr>)"

definition removeTag :: "int \<Rightarrow> editor \<Rightarrow> editor" where
  "removeTag i s = s\<lparr> editor.tags := removeAt i (editor.tags s) \<rparr>"

text \<open>The file name \<open>`${name || "custom-gpt"}.json`\<close> that \<open>downloadJSON\<close> gives the link.\<close>

definition downloadName :: "editor \<Rightarrow> jsstring" where
  "downloadName s = orElse (editor.name s) (ustr ''custom-gpt'') @ ustr ''.json''"

subsection \<open>The six list fields, uniformly\<close>

datatype listField = Actions | Docs | Phrases | Starters | Samples | Tags

datatype item = ActionItem CustomAction | TextItem jsstring | StarterItem ConversationStarter

definition items :: "listField \<Rightarrow> editor \<Rightarrow> item list" where
  "items f s = (case f of
       Actions \<Rightarrow> map ActionItem (actions s)
     | Docs \<Rightarrow> map TextItem (knowledgeDocs s)
     | Phrases \<Rightarrow> map TextItem (customPhrases s)
     | Starters \<Rightarrow> map StarterItem (starters s)
     | Samples \<Rightarrow> map TextItem (sampleQs s)
     | Tags \<Rightarrow> map TextItem (editor.tags s))"

definition addItem :: "listField \<Rightarrow> editor \<Rightarrow> editor" where
  "addItem f = (case f of Actions \<Rightarrow> addAction | Docs \<Rightarrow> addDoc | Phrases \<Rightarrow> addPhrase
     | Starters \<Rightarrow> addStarter | Samples \<Rightarrow> addSample | Tags \<Rightarrow> addTag)"

definition removeItem :: "listField \<Rightarrow> int \<Rightarrow> editor \<Rightarrow> editor" where
  "removeItem f = (case f of Actions \<Rightarrow> removeAction | Docs \<Rightarrow> removeDoc
     | Phrases \<Rightarrow> removePhrase | Starters \<Rightarrow> removeStarter | Samples \<Rightarrow> removeSample
     | Tags \<Rightarrow> removeTag)"

text \<open>
  A draft that fails validation: a single-string draft whose trimmed value is empty, a
  starter whose title or prompt is empty after trimming, an action whose name is empty
  after trimming.
\<close>

definition draftRejected :: "listField \<Rightarrow> editor \<Rightarrow> bool" where
  "draftRejected f s = (case f of
       Actions \<Rightarrow> trim (CustomAction.name (actionDraft s)) = []
     | Docs \<Rightarrow> trim (docDraft s) = []
     | Phrases \<Rightarrow> trim (phraseDraft s) = []
     | Starters \<Rightarrow> trim (starterTitle s) = [] \<or> trim (starterPrompt s) = []
     | Samples \<Rightarrow> trim (sampleDraft s) = []
     | Tags \<Rightarrow> trim (tagDraft s) = [])"

section \<open>The document as a value, and its JSON form\<close>

text \<open>
  A value of the host language, as far as the document holds one. An object is the list of
  its own properties in their order; an absent optional property has no entry.
\<close>

datatype jsval = Undefined | Null | Bool bool | Num jsnum | Str jsstring
  | Arr "jsval list" | Obj "(jsstring \<times> jsval) list"

text \<open>The tree that a JSON text denotes.\<close>

datatype json = JNull | JBool bool | JNumber rat | JString jsstring
  | JArray "json list" | JObject "(jsstring \<times> json) list"

definition entry :: "string \<Rightarrow> jsval \<Rightarrow> (jsstring \<times> jsval) list" where
  "entry k v = [(ustr k, v)]"

definition optEntry :: "string \<Rightarrow> ('a \<Rightarrow> jsval) \<Rightarrow> 'a option \<Rightarrow> (jsstring \<times> jsval) list" where
  "optEntry k f x = (case x of None \<Rightarrow> [] | Some v \<Rightarrow> [(ustr k, f v)])"

definition strings :: "jsstring list \<Rightarrow> jsval" where
  "strings xs = Arr (map Str xs)"

definition toolName :: "BuiltInTool \<Rightarrow> jsstring" where
  "toolName t = (case t of Web \<Rightarrow> ustr ''web'' | Code \<Rightarrow> ustr ''code''
     | Retrieval \<Rightarrow> ustr ''retrieval'' | Image \<Rightarrow> ustr ''image'' | Vision \<Rightarrow> ustr ''vision'')"

definition actionTypeName :: "ActionType \<Rightarrow> jsstring" where
  "actionTypeName t = (case t of Openapi \<Rightarrow> ustr ''openapi'' | JsonRpc \<Rightarrow> ustr ''json-rpc''
     | Graphql \<Rightarrow> ustr ''graphql'' | Webhook \<Rightarrow> ustr ''webhook'')"

definition authTypeName :: "AuthType \<Rightarrow> jsstring" where
  "authTypeName t = (case t of AuthNone \<Rightarrow> ustr ''none'' | ApiKey \<Rightarrow> ustr ''api_key''
     | Oauth2 \<Rightarrow> ustr ''oauth2'')"

definition scopeName :: "MemoryScope \<Rightarrow> jsstring" where
  "scopeName t = (case t of Conversation \<Rightarrow> ustr ''conversation'' | User \<Rightarrow> ustr ''user'')"

definition toneName :: "WritingTone \<Rightarrow> jsstring" where
  "toneName t = (case t of Casual \<Rightarrow> ustr ''casual'' | Formal \<Rightarrow> ustr ''formal''
     | Technical \<Rightarrow> ustr ''technical'' | Friendly \<Rightarrow> ustr ''friendly''
     | Playful \<Rightarrow> ustr ''playful'' | Neutral \<Rightarrow> ustr ''neutral'')"

definition emojiName :: "EmojiUse \<Rightarrow> jsstring" where
  "emojiName t = (case t of EmojiNone \<Rightarrow> ustr ''none'' | Light \<Rightarrow> ustr ''light''
     | Moderate \<Rightarrow> ustr ''moderate'' | Heavy \<Rightarrow> ustr ''heavy'')"

definition lengthName :: "ResponseLength \<Rightarrow> jsstring" where
  "lengthName t = (case t of Short \<Rightarrow> ustr ''short'' | Medium \<Rightarrow> ustr ''medium''
     | Long \<Rightarrow> ustr ''long'')"

definition authValue :: "Auth \<Rightarrow> jsval" where
  "authValue a = Obj (entry ''type'' (Str (authTypeName (Auth.type a)))
     @ optEntry ''instructions'' Str (Auth.instructions a))"

definition actionValue :: "CustomAction \<Rightarrow> jsval" where
  "actionValue a = Obj (entry ''name'' (Str (CustomAction.name a))
     @ entry ''type'' (Str (actionTypeName (CustomAction.type a)))
     @ optEntry ''specUrlOrInline'' Str (specUrlOrInline a)
     @ optEntry ''auth'' authValue (auth a)
     @ optEntry ''description'' Str (CustomAction.description a)
     @ optEntry ''rateLimitPerMinute'' Num (rateLimitPerMinute a)
     @ optEntry ''allowedDomains'' strings (allowedDomains a))"

definition starterValue :: "ConversationStarter \<Rightarrow> jsval" where
  "starterValue c = Obj (entry ''title'' (Str (title c)) @ entry ''prompt'' (Str (prompt c)))"

definition personaValue :: "PersonaStyle \<Rightarrow> jsval" where
  "personaValue p = Obj (optEntry ''writingTone'' (Str \<circ> toneName) (writingTone p)
     @ optEntry ''emojiUse'' (Str \<circ> emojiName) (emojiUse p)
     @ optEntry ''responseLength'' (Str \<circ> lengthName) (responseLength p))"

definition knowledgeValue :: "Knowledge \<Rightarrow> jsval" where
  "knowledgeValue k = Obj (entry ''enabled'' (Bool (Knowledge.enabled k))
     @ optEntry ''documents'' strings (documents k))"

definition memoryValue :: "MemoryPolicy \<Rightarrow> jsval" where
  "memoryValue m = Obj (entry ''enabled'' (Bool (MemoryPolicy.enabled m))
     @ optEntry ''scope'' (Str \<circ> scopeName) (scope m)
     @ optEntry ''dataRetentionDays'' Num (dataRetentionDays m))"

definition safetyValue :: "SafetyPolicy \<Rightarrow> jsval" where
  "safetyValue p = Obj (optEntry ''jailbreakDefense'' Bool (SafetyPolicy.jailbreakDefense p)
     @ optEntry ''blockDisallowedContent'' Bool (blockDisallowedContent p)
     @ optEntry ''piiRedaction'' Bool (SafetyPolicy.piiRedaction p)
     @ optEntry ''customDisallowedPhrases'' strings (customDisallowedPhrases p))"

text \<open>
  The object that \<open>output\<close> returns, as a value. The properties of an action come in
  the order in which the draft acquires them: \<open>name\<close>, \<open>type\<close> and
  \<open>specUrlOrInline\<close> from the initial draft, \<open>auth\<close> from the first edit of an
  authentication control.
\<close>

definition toValue :: "CustomGPTConfig \<Rightarrow> jsval" where
  "toValue d = Obj (entry ''schemaVersion'' (Str (schemaVersion d))
     @ entry ''name'' (Str (CustomGPTConfig.name d))
     @ optEntry ''description'' Str (CustomGPTConfig.description d)
     @ entry ''instructions'' (Str (CustomGPTConfig.instructions d))
     @ optEntry ''language'' Str (CustomGPTConfig.language d)
     @ optEntry ''persona'' personaValue (persona d)
     @ optEntry ''builtInTools'' (\<lambda>ts. Arr (map (Str \<circ> toolName) ts)) (builtInTools d)
     @ optEntry ''customActions'' (\<lambda>as. Arr (map actionValue as)) (customActions d)
     @ optEntry ''knowledge'' knowledgeValue (knowledge d)
     @ optEntry ''memory'' memoryValue (memory d)
     @ optEntry ''safety'' safetyValue (safety d)
     @ optEntry ''conversationStarters'' (\<lambda>cs. Arr (map starterValue cs)) (conversationStarters d)
     @ optEntry ''sampleQuestions'' strings (sampleQuestions d)
     @ optEntry ''tags'' strings (CustomGPTConfig.tags d)
     @ optEntry ''createdAt'' Str (createdAt d))"

text \<open>
  \<open>JSON.stringify\<close> and \<open>JSON.parse\<close> are functions of the platform (ECMA-262, 25.5),
  kept here at the level of the tree that the text denotes. SerializeJSONProperty gives
  nothing for \<open>undefined\<close> (the property is left out of an object, an array element
  becomes \<open>null\<close>) and \<open>null\<close> for a number that is not finite; every other value is
  written as itself. Parsing the text gives back the value of the tree; the text of a
  finite double reads back as that double.
\<close>

primrec serialize :: "jsval \<Rightarrow> json option" where
  "serialize Undefined = None"
| "serialize Null = Some JNull"
| "serialize (Bool b) = Some (JBool b)"
| "serialize (Num n) = Some (case n of Fin q \<Rightarrow> JNumber q | _ \<Rightarrow> JNull)"
| "serialize (Str s) = Some (JString s)"
| "serialize (Arr xs) =
     Some (JArray (map (\<lambda>r. case r of None \<Rightarrow> JNull | Some j \<Rightarrow> j) (map serialize xs)))"
| "serialize (Obj kvs) =
     Some (JObject (concat (map (\<lambda>(k, r). case r of None \<Rightarrow> [] | Some j \<Rightarrow> [(k, j)])
                              (map (map_prod id serialize) kvs))))"

primrec revive :: "json \<Rightarrow> jsval" where
  "revive JNull = Null"
| "revive (JBool b) = Bool b"
| "revive (JNumber q) = Num (Fin q)"
| "revive (JString s) = Str s"
| "revive (JArray xs) = Arr (map revive xs)"
| "revive (JObject kvs) = Obj (map (map_prod id revive) kvs)"

definition jsonRoundTrip :: "jsval \<Rightarrow> jsval option" where
  "jsonRoundTrip v = map_option revive (serialize v)"

text \<open>A value that serialisation writes as itself.\<close>

fun jsonSafe :: "jsval \<Rightarrow> bool" where
  "jsonSafe Undefined = False"
| "jsonSafe (Num n) = isFinite n"
| "jsonSafe (Arr xs) = (\<forall>x \<in> set xs. jsonSafe x)"
| "jsonSafe (Obj kvs) = (\<forall>kv \<in> set kvs. jsonSafe (snd kv))"
| "jsonSafe _ = True"

text \<open>The member \<open>k\<close> of a JSON object, if the tree is an object that has it.\<close>

definition jmember :: "string \<Rightarrow> json option \<Rightarrow> json option" where
  "jmember k j = (case j of Some (JObject kvs) \<Rightarrow> map_of kvs (ustr k) | _ \<Rightarrow> None)"

subsection \<open>The two exports\<close>

text \<open>
  \<open>copyJSON\<close> puts the serialised document on the clipboard and sets \<open>copied\<close>;
  \<open>downloadJSON\<close> offers the serialised document under the download name. The clipboard
  and the file save are outside the component and taken to succeed. The results are the
  text handed over, as the tree it denotes, with the new state or the file name.
\<close>

definition copyJSON :: "editor \<Rightarrow> jsstring \<Rightarrow> json option \<times> editor" where
  "copyJSON s now = (serialize (toValue (output_doc s now)), s\<lparr> copied := True \<rparr>)"

definition downloadJSON :: "editor \<Rightarrow> jsstring \<Rightarrow> jsstring \<times> json option" where
  "downloadJSON s now = (downloadName s, serialize (toValue (output_doc s now)))"

subsection \<open>Views used by the properties\<close>

text \<open>\<open>memory.dataRetentionDays\<close> of a document.\<close>

definition retentionDaysOf :: "CustomGPTConfig \<Rightarrow> jsnum option" where
  "retentionDaysOf d = Option.bind (memory d) dataRetentionDays"

text \<open>
  The element that each \<open>add\<close> function puts at the end of its list: the draft itself for
  an action, the trimmed draft for the string lists, the pair of the trimmed title and the
  trimmed prompt for a starter.
\<close>

definition newItem :: "listField \<Rightarrow> editor \<Rightarrow> item" where
  "newItem f s = (case f of
       Actions \<Rightarrow> ActionItem (actionDraft s)
     | Docs \<Rightarrow> TextItem (trim (docDraft s))
     | Phrases \<Rightarrow> TextItem (trim (phraseDraft s))
     | Starters \<Rightarrow> StarterItem \<lparr> title = trim (starterTitle s), prompt = trim (starterPrompt s) \<rparr>
     | Samples \<Rightarrow> TextItem (trim (sampleDraft s))
     | Tags \<Rightarrow> TextItem (trim (tagDraft s)))"

text \<open>Two clock readings, one millisecond apart, for the examples.\<close>

definition instantA :: jsstring where
  "instantA = ustr ''2024-01-01T00:00:00.000Z''"

definition instantB :: jsstring where
  "instantB = ustr ''2024-01-01T00:00:00.001Z''"

section \<open>The events of the component\<close>

text \<open>
  The retention field is an input of type \<open>number\<close> (line 353). The browser hands its
  handler the sanitised value of the control: the typed text when that is a valid
  floating-point number of HTML (an optional minus sign, digits, or a dot and digits, or
  both, and an optional exponent) whose value is finite, and the empty string otherwise.
\<close>

definition validFloatingPointNumber :: "jsstring \<Rightarrow> bool" where
  "validFloatingPointNumber t =
     (let u = (case t of [] \<Rightarrow> [] | c # r \<Rightarrow> if c = 0x2D then r else t);
          ip = takeWhile (isDigitOf 10) u; r1 = dropWhile (isDigitOf 10) u;
          dot = (r1 \<noteq> [] \<and> hd r1 = 0x2E);
          fp = (if dot then takeWhile (isDigitOf 10) (tl r1) else []);
          r2 = (if dot then dropWhile (isDigitOf 10) (tl r1) else r1)
      in (if dot then fp \<noteq> [] else ip \<noteq> []) \<and> exponentPart r2 \<noteq> None)"

definition numberInputValue :: "jsstring \<Rightarrow> jsstring" where
  "numberInputValue raw =
     (if validFloatingPointNumber raw \<and> isFinite (Number raw) then raw else [])"

text \<open>
  The events of the rendered component, one for each handler of the markup: the text
  inputs and selects call their setter with the new value, a click on a checkbox negates
  its flag, the five controls of the action draft rebuild the draft (lines 291 to 305), the
  buttons call the mutators, \<open>copyJSON\<close> sets \<open>copied\<close> and the timer of the effect
  clears it. A control that is rendered only while its section is enabled (the document
  draft and list, the memory scope, the retention) has no effect while it is not.
\<close>

datatype event =
    SetName jsstring | SetLanguage jsstring | SetDescription jsstring
  | SetInstructions jsstring
  | SetTone WritingTone | SetEmoji EmojiUse | SetLengthPref ResponseLength
  | ToggleTool BuiltInTool
  | DraftName jsstring | DraftType ActionType | DraftSpec jsstring
  | DraftAuthType AuthType | DraftAuthInstructions jsstring
  | ToggleKnowledge | SetDocDraft jsstring
  | ToggleMemory | SetMemoryScope MemoryScope | RetentionInput jsstring
  | ToggleJailbreakDefense | ToggleBlockDisallowed | TogglePiiRedaction
  | SetPhraseDraft jsstring
  | SetStarterTitle jsstring | SetStarterPrompt jsstring
  | SetSampleDraft jsstring | SetTagDraft jsstring
  | Add listField | Remove listField int
  | CopyJSON | CopiedTimeout

fun step :: "editor \<Rightarrow> event \<Rightarrow> editor" where
  "step s (SetName v) = s\<lparr> editor.name := v \<rparr>"
| "step s (SetLanguage v) = s\<lparr> editor.language := v \<rparr>"
| "step s (SetDescription v) = s\<lparr> editor.description := v \<rparr>"
| "step s (SetInstructions v) = s\<lparr> editor.instructions := v \<rparr>"
| "step s (SetTone t) = s\<lparr> tone := t \<rparr>"
| "step s (SetEmoji e) = s\<lparr> emoji := e \<rparr>"
| "step s (SetLengthPref l) = s\<lparr> lengthPref := l \<rparr>"
| "step s (ToggleTool t) = toggleTool s t"
| "step s (DraftName v) = s\<lparr> actionDraft := (actionDraft s)\<lparr> CustomAction.name := v \<rparr> \<rparr>"
| "step s (DraftType t) = s\<lparr> actionDraft := (actionDraft s)\<lparr> CustomAction.type := t \<rparr> \<rparr>"
| "step s (DraftSpec v) = s\<lparr> actionDraft := (actionDraft s)\<lparr> specUrlOrInline := Some v \<rparr> \<rparr>"
| "step s (DraftAuthType t) =
     s\<lparr> actionDraft := (actionDraft s)\<lparr> auth := Some
         \<lparr> Auth.type = t,
           Auth.instructions = (case auth (actionDraft s) of None \<Rightarrow> None
                                | Some a \<Rightarrow> Auth.instructions a) \<rparr> \<rparr> \<rparr>"
| "step s (DraftAuthInstructions v) =
     s\<lparr> actionDraft := (actionDraft s)\<lparr> auth := Some
         \<lparr> Auth.type = (case auth (actionDraft s) of None \<Rightarrow> AuthNone | Some a \<Rightarrow> Auth.type a),
           Auth.instructions = Some v \<rparr> \<rparr> \<rparr>"
| "step s ToggleKnowledge = s\<lparr> knowledgeEnabled := \<not> knowledgeEnabled s \<rparr>"
| "step s (SetDocDraft v) = (if knowledgeEnabled s then s\<lparr> docDraft := v \<rparr> else s)"
| "step s ToggleMemory = s\<lparr> memoryEnabled := \<not> memoryEnabled s \<rparr>"
| "step s (SetMemoryScope c) = (if memoryEnabled s then s\<lparr> memoryScope := c \<rparr> else s)"
| "step s (RetentionInput raw) =
     (if memoryEnabled s then s\<lparr> retention := numberInputValue raw \<rparr> else s)"
| "step s ToggleJailbreakDefense = s\<lparr> editor.jailbreakDefense := \<not> editor.jailbreakDefense s \<rparr>"
| "step s ToggleBlockDisallowed = s\<lparr> blockDisallowed := \<not> blockDisallowed s \<rparr>"
| "step s TogglePiiRedaction = s\<lparr> editor.piiRedaction := \<not> editor.piiRedaction s \<rparr>"
| "step s (SetPhraseDraft v) = s\<lparr> phraseDraft := v \<rparr>"
| "step s (SetStarterTitle v) = s\<lparr> starterTitle := v \<rparr>"
| "step s (SetStarterPrompt v) = s\<lparr> starterPrompt := v \<rparr>"
| "step s (SetSampleDraft v) = s\<lparr> sampleDraft := v \<rparr>"
| "step s (SetTagDraft v) = s\<lparr> tagDraft := v \<rparr>"
| "step s (Add f) = (if f = Docs \<and> \<not> knowledgeEnabled s then s else addItem f s)"
| "step s (Remove f i) = (if f = Docs \<and> \<not> knowledgeEnabled s then s else removeItem f i s)"
| "step s CopyJSON = s\<lparr> copied := True \<rparr>"
| "step s CopiedTimeout = s\<lparr> copied := False \<rparr>"

text \<open>The state after a sequence of events, from the initial state.\<close>

definition run :: "event list \<Rightarrow> editor" where
  "run es = foldl step initialState es"

text \<open>
  What every reachable state keeps: a retention whose coerced value is finite, and no rate
  limit on the draft or on a stored action.
\<close>

definition editorInv :: "editor \<Rightarrow> bool" where
  "editorInv s \<longleftrightarrow>
     isFinite (coerceRetention (retention s))
     \<and> rateLimitPerMinute (actionDraft s) = None
     \<and> list_all (\<lambda>a. rateLimitPerMinute a = None) (actions s)"

section \<open>Properties\<close>

subsection \<open>The tool list\<close>

lemma builtIn_filter: "builtIn s = filter (\<lambda>t. toolFlag t s) allTools"
  by (simp add: builtIn_def toolFlag_def allTools_def Let_def)

lemma set_allTools: "set allTools = UNIV"
proof -
  have "t \<in> set allTools" for t by (cases t) (simp_all add: allTools_def)
  then show ?thesis by blast
qed

lemma distinct_allTools: "distinct allTools"
  by (simp add: allTools_def)

lemma toolFlag_setTool: "toolFlag t (setTool u b s) = (if t = u then b else toolFlag t s)"
  by (cases t; cases u; simp add: toolFlag_def setTool_def)

lemma toolFlag_toggles:
  "toolFlag t (foldl toggleTool s ts) = (toolFlag t s \<noteq> odd (count_list ts t))"
  by (induction ts arbitrary: s) (auto simp: toggleTool_def toolFlag_setTool)

lemma toggles_permuted:
  assumes "mset ts = mset ts'"
  shows "toolFlag t (foldl toggleTool s ts) = toolFlag t (foldl toggleTool s ts')"
proof -
  have "count_list ts t = count_list ts' t"
    using assms by (metis count_mset)
  then show ?thesis by (simp add: toolFlag_toggles)
qed

text \<open>
  Claim C1. For every assignment of the five tool flags, \<open>builtInTools\<close> of the derived
  document lists exactly the enabled tools, each once, in the order web, code, retrieval,
  image, vision; two sequences of clicks on the tool toggles that differ only in their order
  lead to the same list.
\<close>

theorem builtInTools_canonical:
  "builtInTools (output_doc s now)
     = Some (filter (\<lambda>t. toolFlag t s) [Web, Code, Retrieval, Image, Vision])
   \<and> set (builtIn s) = {t. toolFlag t s} \<and> distinct (builtIn s)
   \<and> (mset ts = mset ts' \<longrightarrow>
        builtInTools (output_doc (foldl toggleTool s ts) now)
          = builtInTools (output_doc (foldl toggleTool s ts') now))"
proof -
  have a: "builtInTools (output_doc s now)
      = Some (filter (\<lambda>t. toolFlag t s) [Web, Code, Retrieval, Image, Vision])" for s
    by (simp add: output_doc_def builtIn_filter allTools_def)
  have b: "set (builtIn s) = {t. toolFlag t s}"
    by (simp add: builtIn_filter set_allTools)
  have c: "distinct (builtIn s)"
    by (simp add: builtIn_filter distinct_allTools)
  have d: "builtInTools (output_doc (foldl toggleTool s ts) now)
          = builtInTools (output_doc (foldl toggleTool s ts') now)" if "mset ts = mset ts'"
    using toggles_permuted [OF that] by (simp add: a)
  show ?thesis using a b c d by blast
qed

theorem builtInTools_canonical_witness:
  "mset [Code, Vision] = mset [Vision, Code]
   \<and> builtInTools (output_doc (foldl toggleTool initialState [Code, Vision]) instantA)
       = builtInTools (output_doc (foldl toggleTool initialState [Vision, Code]) instantA)
   \<and> builtInTools (output_doc (foldl toggleTool initialState [Code, Vision]) instantA)
       = Some [Web, Code, Vision]"
proof -
  have m: "mset [Code, Vision] = mset [Vision, Code]"
    by simp
  have e: "builtInTools (output_doc (foldl toggleTool initialState [Code, Vision]) instantA)
       = builtInTools (output_doc (foldl toggleTool initialState [Vision, Code]) instantA)"
    using builtInTools_canonical [of initialState instantA "[Code, Vision]" "[Vision, Code]"] m
    by blast
  have v: "builtInTools (output_doc (foldl toggleTool initialState [Code, Vision]) instantA)
       = Some [Web, Code, Vision]"
    by (simp add: output_doc_def builtIn_def initialState_def toggleTool_def setTool_def
        toolFlag_def)
  show ?thesis using m e v by blast
qed

subsection \<open>Removing from a list field\<close>

lemma removeAt_enumerate:
  "map snd (filter (\<lambda>(idx, _). int idx \<noteq> i) (enumerate n xs)) =
     (if int n \<le> i \<and> i < int n + int (length xs)
      then take (nat (i - int n)) xs @ drop (Suc (nat (i - int n))) xs else xs)"
proof (induction xs arbitrary: n)
  case Nil
  then show ?case by simp
next
  case (Cons x xs)
  show ?case
  proof (cases "int n = i")
    case True
    then show ?thesis using Cons [of "Suc n"] by simp
  next
    case False
    show ?thesis
    proof (cases "int n < i \<and> i < int n + int (length (x # xs))")
      case True
      then have k: "nat (i - int n) = Suc (nat (i - int (Suc n)))" by auto
      from True have "int (Suc n) \<le> i \<and> i < int (Suc n) + int (length xs)" by auto
      then show ?thesis using Cons [of "Suc n"] False True by (simp add: k)
    next
      case out: False
      have nr: "\<not> (int (Suc n) \<le> i \<and> i < int (Suc n) + int (length xs))"
        using out by auto
      have ih: "map snd (filter (\<lambda>(idx, _). int idx \<noteq> i) (enumerate (Suc n) xs)) = xs"
        using Cons [of "Suc n"] nr by presburger
      have nr': "\<not> (int n \<le> i \<and> i < int n + int (length (x # xs)))"
        using out False by auto
      have "map snd (filter (\<lambda>(idx, _). int idx \<noteq> i) (enumerate n (x # xs))) = x # xs"
        using False ih by simp
      then show ?thesis using nr' by presburger
    qed
  qed
qed

lemma removeAt_eq:
  "removeAt i xs =
     (if 0 \<le> i \<and> i < int (length xs) then take (nat i) xs @ drop (Suc (nat i)) xs else xs)"
  using removeAt_enumerate [of i 0 xs] by (simp add: removeAt_def)

lemma removeAt_map: "removeAt i (map f xs) = map f (removeAt i xs)"
  by (simp add: removeAt_eq take_map drop_map)


lemma items_removeItem:
  "items f (removeItem f i s) = removeAt i (items f s)"
  by (cases f) (simp_all add: items_def removeItem_def removeAction_def removeDoc_def
      removePhrase_def removeStarter_def removeSample_def removeTag_def removeAt_map)

lemma items_removeItem_other:
  "g \<noteq> f \<Longrightarrow> items g (removeItem f i s) = items g s"
  by (cases f; cases g) (simp_all add: items_def removeItem_def removeAction_def removeDoc_def
      removePhrase_def removeStarter_def removeSample_def removeTag_def)

lemma removeItem_out_of_range:
  "\<not> (0 \<le> i \<and> i < int (length (items f s))) \<Longrightarrow> removeItem f i s = s"
  by (cases f) (auto simp: items_def removeItem_def removeAction_def removeDoc_def
      removePhrase_def removeStarter_def removeSample_def removeTag_def removeAt_eq)

text \<open>
  Claim C5. For every list field, removing at a valid index \<open>i\<close> deletes exactly the element
  at \<open>i\<close>: the elements before it stay, the elements after it move one place to the left,
  and the length decreases by one. At an index out of range the state is unchanged. No other
  list field is touched, and the operation has no failing branch.
\<close>

theorem removeAt_removes_exactly_one:
  "(0 \<le> i \<and> i < int (length (items f s)) \<longrightarrow>
      items f (removeItem f i s) = take (nat i) (items f s) @ drop (Suc (nat i)) (items f s)
      \<and> Suc (length (items f (removeItem f i s))) = length (items f s)
      \<and> (\<forall>j < nat i. items f (removeItem f i s) ! j = items f s ! j)
      \<and> (\<forall>j. nat i \<le> j \<and> Suc j < length (items f s) \<longrightarrow>
            items f (removeItem f i s) ! j = items f s ! Suc j))
   \<and> (\<not> (0 \<le> i \<and> i < int (length (items f s))) \<longrightarrow> removeItem f i s = s)
   \<and> (\<forall>g. g \<noteq> f \<longrightarrow> items g (removeItem f i s) = items g s)"
proof -
  have inr: "items f (removeItem f i s) = take (nat i) (items f s) @ drop (Suc (nat i)) (items f s)
      \<and> Suc (length (items f (removeItem f i s))) = length (items f s)
      \<and> (\<forall>j < nat i. items f (removeItem f i s) ! j = items f s ! j)
      \<and> (\<forall>j. nat i \<le> j \<and> Suc j < length (items f s) \<longrightarrow>
            items f (removeItem f i s) ! j = items f s ! Suc j)"
    if r: "0 \<le> i \<and> i < int (length (items f s))"
  proof -
    let ?xs = "items f s"
    have n: "nat i < length ?xs" using r by auto
    have e: "items f (removeItem f i s) = take (nat i) ?xs @ drop (Suc (nat i)) ?xs"
      using r by (simp add: items_removeItem removeAt_eq)
    have l: "Suc (length (items f (removeItem f i s))) = length ?xs"
      using n by (simp add: e)
    have lo: "items f (removeItem f i s) ! j = ?xs ! j" if "j < nat i" for j
      using that n by (simp add: e nth_append)
    have hi: "items f (removeItem f i s) ! j = ?xs ! Suc j"
      if "nat i \<le> j \<and> Suc j < length ?xs" for j
      using that n by (simp add: e nth_append min_def)
    show ?thesis using e l lo hi by blast
  qed
  show ?thesis
    using inr removeItem_out_of_range [of i f s] items_removeItem_other [of _ f i s] by blast
qed

theorem removeAt_removes_exactly_one_witness:
  "(0 \<le> (0::int) \<and> (0::int) < int (length (items Tags initialState)))
   \<and> items Tags (removeItem Tags 0 initialState) = []
   \<and> Suc (length (items Tags (removeItem Tags 0 initialState))) = length (items Tags initialState)
   \<and> \<not> (0 \<le> (5::int) \<and> (5::int) < int (length (items Tags initialState)))
   \<and> removeItem Tags 5 initialState = initialState
   \<and> Starters \<noteq> Tags
   \<and> items Starters (removeItem Tags 0 initialState) = items Starters initialState"
proof -
  have r: "0 \<le> (0::int) \<and> (0::int) < int (length (items Tags initialState))"
    by (simp add: items_def initialState_def)
  have o: "\<not> (0 \<le> (5::int) \<and> (5::int) < int (length (items Tags initialState)))"
    by (simp add: items_def initialState_def)
  have l: "items Tags initialState = [TextItem (ustr ''starter'')]"
    by (simp add: items_def initialState_def)
  have d: "Starters \<noteq> Tags" by simp
  from removeAt_removes_exactly_one [of 0 Tags initialState] r
  have a: "items Tags (removeItem Tags 0 initialState) = []"
    and b: "Suc (length (items Tags (removeItem Tags 0 initialState))) = length (items Tags initialState)"
    and c: "items Starters (removeItem Tags 0 initialState) = items Starters initialState"
    using l d by auto
  from removeAt_removes_exactly_one [of 5 Tags initialState] o
  have e: "removeItem Tags 5 initialState = initialState" by blast
  show ?thesis using r o d a b c e by blast
qed

subsection \<open>Determinism of the derivation\<close>

text \<open>
  Claim C2, as the code has it. The derivation reads the clock for \<open>createdAt\<close>. Two
  derivations from identical values of every tracked field give documents that agree in
  every field other than \<open>createdAt\<close>, and that are identical exactly when the two clock
  readings are.
\<close>

theorem derivation_deterministic_up_to_clock:
  assumes "dependencies s = dependencies s'"
  shows "(output_doc s now)\<lparr>createdAt := c\<rparr> = (output_doc s' now')\<lparr>createdAt := c\<rparr>
         \<and> (output_doc s now = output_doc s' now' \<longleftrightarrow> now = now')"
proof -
  have b: "builtIn s = builtIn s'"
    using assms by (simp add: dependencies_def builtIn_def)
  show ?thesis
    using assms b by (auto simp: dependencies_def output_doc_def)
qed

theorem derivation_deterministic_up_to_clock_witness:
  "dependencies initialState = dependencies (initialState\<lparr>copied := True, tagDraft := ustr ''x''\<rparr>)
   \<and> output_doc initialState instantA
       = output_doc (initialState\<lparr>copied := True, tagDraft := ustr ''x''\<rparr>) instantA"
proof -
  have d: "dependencies initialState
           = dependencies (initialState\<lparr>copied := True, tagDraft := ustr ''x''\<rparr>)"
    by (simp add: dependencies_def)
  from derivation_deterministic_up_to_clock [OF d, where now = instantA and now' = instantA]
  show ?thesis using d by simp
qed

theorem derivation_clock_counterexample:
  "dependencies initialState = dependencies initialState
   \<and> output_doc initialState instantA \<noteq> output_doc initialState instantB"
  by (simp add: output_doc_def instantA_def instantB_def ustr_def)

subsection \<open>Adding to a list field\<close>

lemma trimEnd_prefix: "\<exists>r. u = trimEnd u @ r"
proof -
  have "trimEnd u @ rev (takeWhile isStrWhiteSpaceChar (rev u))
      = rev (takeWhile isStrWhiteSpaceChar (rev u) @ dropWhile isStrWhiteSpaceChar (rev u))"
    by (simp only: trimEnd_def rev_append)
  also have "\<dots> = u"
    by (simp only: takeWhile_dropWhile_id rev_rev_ident)
  finally show ?thesis by metis
qed

lemma trimStart_trim: "trimStart (trim s) = trim s"
proof (cases "trim s")
  case Nil
  then show ?thesis by (simp add: trimStart_def)
next
  case (Cons c w)
  obtain r where r: "trimStart s = trimEnd (trimStart s) @ r"
    using trimEnd_prefix by blast
  with Cons have "trimStart s = c # w @ r"
    by (simp add: trim_def)
  then have "dropWhile isStrWhiteSpaceChar s = c # w @ r"
    by (simp add: trimStart_def)
  then have "\<not> isStrWhiteSpaceChar c"
    by (metis hd_dropWhile list.sel(1) list.simps(3))
  with Cons show ?thesis
    by (simp add: trimStart_def)
qed

lemma trimEnd_trim: "trimEnd (trim s) = trim s"
  by (simp add: trim_def trimEnd_def)

lemma trim_idem: "trim (trim s) = trim s"
proof -
  have "trim (trim s) = trimEnd (trimStart (trim s))"
    by (simp add: trim_def)
  then show ?thesis
    by (simp add: trimStart_trim trimEnd_trim)
qed

text \<open>
  The string lists and the starters store trimmed text: trimming a stored element again
  changes nothing.
\<close>

lemma string_fields_store_trimmed:
  "\<not> draftRejected f s \<Longrightarrow> f \<noteq> Actions \<Longrightarrow>
     (case last (items f (addItem f s)) of
        TextItem t \<Rightarrow> trim t = t
      | StarterItem c \<Rightarrow> trim (title c) = title c \<and> trim (prompt c) = prompt c
      | ActionItem a \<Rightarrow> False)"
  by (cases f) (auto simp: draftRejected_def addItem_def addDoc_def addPhrase_def
      addStarter_def addSample_def addTag_def truthy_def items_def trim_idem)

text \<open>
  Claim C3 at the action list. \<open>addAction\<close> checks the trimmed name and stores the draft
  as typed: with the name \<open>" Lookup "\<close> the stored action keeps both spaces.
\<close>

theorem addAction_stores_untrimmed_name:
  "actions (addAction (initialState\<lparr>actionDraft :=
       emptyActionDraft\<lparr>CustomAction.name := ustr '' Lookup ''\<rparr>\<rparr>))
     = [emptyActionDraft\<lparr>CustomAction.name := ustr '' Lookup ''\<rparr>]
   \<and> trim (ustr '' Lookup '') = ustr ''Lookup''
   \<and> CustomAction.name (last (actions (addAction (initialState\<lparr>actionDraft :=
       emptyActionDraft\<lparr>CustomAction.name := ustr '' Lookup ''\<rparr>\<rparr>)))) \<noteq> ustr ''Lookup''"
  by (simp add: addAction_def initialState_def emptyActionDraft_def truthy_def trim_def
      trimStart_def trimEnd_def isStrWhiteSpaceChar_def ustr_def)

text \<open>
  Claim C6. For every list field, adding a draft that fails validation returns the state
  as it was: no list, no draft and no other variable changes, and there is no failing
  branch.
\<close>

theorem add_rejected_is_noop:
  "draftRejected f s \<Longrightarrow> addItem f s = s"
  by (cases f) (auto simp: draftRejected_def addItem_def addAction_def addDoc_def
      addPhrase_def addStarter_def addSample_def addTag_def truthy_def)

lemma trim_spaces: "trim (ustr ''   '') = []"
  by (simp add: trim_def trimStart_def trimEnd_def isStrWhiteSpaceChar_def ustr_def)

theorem add_rejected_is_noop_witness:
  "draftRejected Tags (initialState\<lparr>tagDraft := ustr ''   ''\<rparr>)
   \<and> addItem Tags (initialState\<lparr>tagDraft := ustr ''   ''\<rparr>) = initialState\<lparr>tagDraft := ustr ''   ''\<rparr>
   \<and> draftRejected Starters (initialState\<lparr>starterTitle := ustr ''Hi'', starterPrompt := ustr ''   ''\<rparr>)
   \<and> addItem Starters (initialState\<lparr>starterTitle := ustr ''Hi'', starterPrompt := ustr ''   ''\<rparr>)
       = initialState\<lparr>starterTitle := ustr ''Hi'', starterPrompt := ustr ''   ''\<rparr>
   \<and> draftRejected Actions initialState
   \<and> addItem Actions initialState = initialState"
proof -
  have a: "draftRejected Tags (initialState\<lparr>tagDraft := ustr ''   ''\<rparr>)"
    by (simp add: draftRejected_def trim_spaces)
  have b: "draftRejected Starters
             (initialState\<lparr>starterTitle := ustr ''Hi'', starterPrompt := ustr ''   ''\<rparr>)"
    by (simp add: draftRejected_def trim_spaces)
  have c: "draftRejected Actions initialState"
    by (simp add: draftRejected_def initialState_def emptyActionDraft_def trim_def
        trimStart_def trimEnd_def)
  show ?thesis
    using a b c add_rejected_is_noop [OF a] add_rejected_is_noop [OF b]
      add_rejected_is_noop [OF c]
    by blast
qed

text \<open>
  Claim C10. No list field enforces uniqueness: for every state and every draft that
  passes validation, the add appends one element, so the length grows by exactly one and
  the number of occurrences of the appended element grows by one, also when an equal
  element is already in the list.
\<close>

theorem add_accepted_appends_one:
  "\<not> draftRejected f s \<Longrightarrow>
     items f (addItem f s) = items f s @ [newItem f s]
     \<and> length (items f (addItem f s)) = Suc (length (items f s))
     \<and> count_list (items f (addItem f s)) (newItem f s)
         = Suc (count_list (items f s) (newItem f s))"
  by (cases f) (auto simp: draftRejected_def addItem_def addAction_def addDoc_def
      addPhrase_def addStarter_def addSample_def addTag_def truthy_def items_def newItem_def)

lemma trim_starter: "trim (ustr '' starter '') = ustr ''starter''"
  by (simp add: trim_def trimStart_def trimEnd_def isStrWhiteSpaceChar_def ustr_def)

theorem add_accepted_appends_one_witness:
  "\<not> draftRejected Tags (initialState\<lparr>tagDraft := ustr '' starter ''\<rparr>)
   \<and> items Tags (initialState\<lparr>tagDraft := ustr '' starter ''\<rparr>) = [TextItem (ustr ''starter'')]
   \<and> items Tags (addItem Tags (initialState\<lparr>tagDraft := ustr '' starter ''\<rparr>))
       = [TextItem (ustr ''starter''), TextItem (ustr ''starter'')]
   \<and> length (items Tags (addItem Tags (initialState\<lparr>tagDraft := ustr '' starter ''\<rparr>))) = 2"
proof -
  let ?s = "initialState\<lparr>tagDraft := ustr '' starter ''\<rparr>"
  have "ustr ''starter'' \<noteq> []"
    by (simp add: ustr_def)
  then have r: "\<not> draftRejected Tags ?s"
    by (simp add: draftRejected_def trim_starter)
  have i: "items Tags ?s = [TextItem (ustr ''starter'')]"
    by (simp add: items_def initialState_def)
  have n: "newItem Tags ?s = TextItem (ustr ''starter'')"
    by (simp add: newItem_def trim_starter)
  show ?thesis
    using r i n add_accepted_appends_one [OF r] by simp
qed

subsection \<open>The retention days\<close>

lemma coerceRetention_cases:
  "coerceRetention r = (case Number r of Fin q \<Rightarrow> Fin (max 0 q) | PosInf \<Rightarrow> PosInf | _ \<Rightarrow> Fin 0)"
  by (cases "Number r") (auto simp: coerceRetention_def numOr_def mathMax_def max_def)

lemma coerceRetention_nonneg: "isNonNegative (coerceRetention r)"
  by (cases "Number r") (auto simp: coerceRetention_cases isNonNegative_def)

lemma coerce_abc: "coerceRetention (ustr ''abc'') = Fin 0"
  by code_simp

lemma coerce_minus5: "coerceRetention (ustr ''-5'') = Fin 0"
  by code_simp

lemma coerce_30: "coerceRetention (ustr ''30'') = Fin 30"
  by code_simp

lemma coerce_180: "coerceRetention (ustr ''180'') = Fin 180"
  by code_simp

lemma coerce_fraction: "coerceRetention (ustr ''1.5'') = Fin (3 / 2)"
  by code_simp

lemma coerce_Infinity: "coerceRetention (ustr ''Infinity'') = PosInf"
  by code_simp

lemma roundHalfEven_of_int: "roundHalfEven (of_int m) = m"
  by (simp add: roundHalfEven_def)

lemma floorlog2_of_nat:
  assumes "0 < n"
  shows "floorlog2 (of_nat n) = bitlen (int n) - 1"
proof -
  have q: "quotient_of (of_nat n :: rat) = (int n, 1)"
    by (metis of_int_of_nat_eq quotient_of_rat_of_int)
  have b1: "bitlen 1 = 1"
    by (simp add: compute_bitlen)
  have pos: "0 \<le> bitlen (int n) - 1"
    using assms bitlen_eq_zero_iff [of "int n"] bitlen_nonneg [of "int n"] by linarith
  have "(2::int) ^ nat (bitlen (int n) - 1) \<le> int n"
    using bitlen_bounds [of "int n"] assms by simp
  then have "(of_int ((2::int) ^ nat (bitlen (int n) - 1)) :: rat) \<le> of_int (int n)"
    by (simp only: of_int_le_iff)
  then have "power_int (2::rat) (bitlen (int n) - 1) \<le> of_nat n"
    using pos by (simp add: power_int_def)
  then show ?thesis
    by (simp add: floorlog2_def q b1)
qed

lemma toDouble_of_nat:
  assumes "n < 2 ^ 53"
  shows "toDouble (of_nat n) = Fin (of_nat n)"
proof (cases "n = 0")
  case True
  then show ?thesis by (simp add: toDouble_def)
next
  case False
  then have n: "0 < n" by simp
  define e where "e = bitlen (int n) - 1"
  have e0: "0 \<le> e"
    using n bitlen_eq_zero_iff [of "int n"] bitlen_nonneg [of "int n"] by (simp add: e_def)
  have "bitlen (int n) \<le> 53"
    using assms less_power_nat_iff_bitlen [of n 53] by simp
  then have e52: "e \<le> 52" by (simp add: e_def)
  have fl: "max (floorlog2 \<bar>of_nat n\<bar>) (- 1022) = e"
    using e0 by (simp add: floorlog2_of_nat [OF n] e_def)
  have ulp: "power_int (2::rat) (e - 52) = 1 / 2 ^ nat (52 - e)"
    using e52 by (auto simp: power_int_def inverse_eq_divide power_one_over)
  have quot: "(of_nat n :: rat) / (1 / 2 ^ nat (52 - e)) = of_int (int n * 2 ^ nat (52 - e))"
    by simp
  have v: "of_int (roundHalfEven ((of_nat n :: rat) / (1 / 2 ^ nat (52 - e)))) * (1 / 2 ^ nat (52 - e))
             = (of_nat n :: rat)"
    by (simp only: quot roundHalfEven_of_int) simp
  have "(of_nat n :: rat) < 2 ^ 53"
    using assms by (metis of_nat_less_iff of_nat_numeral of_nat_power)
  also have "\<dots> \<le> 2 ^ 1024"
    by (rule power_increasing) simp_all
  finally have small: "\<not> power_int (2::rat) 1024 \<le> of_nat n"
    by (simp add: power_int_def)
  have nz: "(of_nat n :: rat) \<noteq> 0" using n by simp
  have a: "\<bar>of_nat n :: rat\<bar> = of_nat n" by simp
  have s: "sgn (of_nat n :: rat) = 1" using n by simp
  show ?thesis
    unfolding toDouble_def Let_def fl ulp
    using nz small v by (simp only: a s if_False mult_1)
qed

lemma isDigitOf_10: "isDigitOf 10 c \<longleftrightarrow> 0x30 \<le> c \<and> c \<le> 0x39"
proof -
  have "unat c - 0x30 < 10" if "c \<le> 0x39"
  proof -
    from that have "unat c \<le> 0x39" by (simp add: word_le_nat_alt)
    then show ?thesis by simp
  qed
  then show ?thesis by (auto simp: isDigitOf_def)
qed

lemma digit_not_space: "isDigitOf 10 c \<Longrightarrow> \<not> isStrWhiteSpaceChar c"
  by (auto simp: isDigitOf_10 isStrWhiteSpaceChar_def word_le_nat_alt)

lemma trim_digits:
  assumes "allDigits 10 r"
  shows "trim r = r"
proof -
  from assms obtain c w where r: "r = c # w" and c: "isDigitOf 10 c"
    by (cases r) (auto simp: allDigits_def)
  have s: "trimStart r = r"
    using r c by (simp add: trimStart_def digit_not_space)
  from assms have "r \<noteq> []" and "isDigitOf 10 (last r)"
    by (auto simp: allDigits_def list_all_iff)
  then have "dropWhile isStrWhiteSpaceChar (rev r) = rev r"
    by (cases r rule: rev_cases) (auto simp: digit_not_space)
  then have "trimEnd r = r"
    by (simp add: trimEnd_def)
  with s show ?thesis by (simp add: trim_def)
qed

lemma digits_not_nonDecimal:
  assumes "allDigits 10 r"
  shows "nonDecimalIntegerLiteral r = None"
proof (cases r)
  case Nil
  then show ?thesis by (simp add: nonDecimalIntegerLiteral_def)
next
  case (Cons z t)
  show ?thesis
  proof (cases t)
    case Nil
    with Cons show ?thesis by (simp add: nonDecimalIntegerLiteral_def)
  next
    case (Cons p ds)
    with assms \<open>r = z # t\<close> have "isDigitOf 10 p"
      by (simp add: allDigits_def)
    then have "p \<noteq> 0x62" "p \<noteq> 0x42" "p \<noteq> 0x6F" "p \<noteq> 0x4F" "p \<noteq> 0x78" "p \<noteq> 0x58"
      by (auto simp: isDigitOf_10)
    with Cons \<open>r = z # t\<close> show ?thesis
      by (simp add: nonDecimalIntegerLiteral_def)
  qed
qed

lemma digits_unsigned:
  assumes "allDigits 10 r"
  shows "strUnsignedDecimalLiteral r = Some (toDouble (of_nat (digitsValue 10 r)))"
proof -
  from assms have all: "\<forall>c \<in> set r. isDigitOf 10 c" and ne: "r \<noteq> []"
    by (auto simp: allDigits_def list_all_iff)
  have "\<not> isDigitOf 10 0x49"
    by (simp add: isDigitOf_10)
  then have inf: "r \<noteq> ustr ''Infinity''"
    using all by (auto simp: ustr_def)
  have tw: "takeWhile (isDigitOf 10) r = r" and dw: "dropWhile (isDigitOf 10) r = []"
    using all by simp_all
  show ?thesis
    using inf ne
    by (simp add: strUnsignedDecimalLiteral_def Let_def tw dw exponentPart_def digitsValue_def)
qed

lemma Number_digits:
  assumes "allDigits 10 r"
  shows "Number r = toDouble (of_nat (digitsValue 10 r))"
proof -
  from assms obtain c w where r: "r = c # w" and c: "isDigitOf 10 c"
    by (cases r) (auto simp: allDigits_def)
  from c have "c \<noteq> 0x2B" "c \<noteq> 0x2D"
    by (auto simp: isDigitOf_10)
  then have "strDecimalLiteral r = strUnsignedDecimalLiteral r"
    using r by (simp add: strDecimalLiteral_def)
  moreover have "r \<noteq> []"
    using r by simp
  ultimately show ?thesis
    by (simp add: Number_def trim_digits [OF assms] digits_not_nonDecimal [OF assms]
        digits_unsigned [OF assms])
qed

lemma coerceRetention_digits:
  assumes "allDigits 10 r" and "digitsValue 10 r < 2 ^ 53"
  shows "coerceRetention r = Fin (of_nat (digitsValue 10 r))"
  using assms
  by (simp add: coerceRetention_def Number_digits toDouble_of_nat numOr_def mathMax_def)

lemma retentionDaysOf_output:
  "retentionDaysOf (output_doc s now) = Some (coerceRetention (retention s))"
  by (simp add: retentionDaysOf_def output_doc_def)

text \<open>
  Claim C4, as the code has it. For every string value of the retention field,
  \<open>memory.dataRetentionDays\<close> is the Number value of the text, with 0 in place of
  not-a-number and of every negative value: a number that is never negative and never
  not-a-number, though not always an integer. A text of decimal digits whose value is
  below \<open>2 ^ 53\<close> gives that integer. In particular \<open>"abc"\<close> gives 0, \<open>"-5"\<close> gives 0
  and \<open>"30"\<close> gives 30.
\<close>

theorem retention_coerced_nonnegative:
  "retentionDaysOf (output_doc s now) = Some (coerceRetention (retention s))
   \<and> coerceRetention r
       = (case Number r of Fin q \<Rightarrow> Fin (max 0 q) | PosInf \<Rightarrow> PosInf | _ \<Rightarrow> Fin 0)
   \<and> isNonNegative (coerceRetention r)
   \<and> (allDigits 10 r \<and> digitsValue 10 r < 2 ^ 53 \<longrightarrow>
        coerceRetention r = Fin (of_nat (digitsValue 10 r)))
   \<and> coerceRetention (ustr ''abc'') = Fin 0
   \<and> coerceRetention (ustr ''-5'') = Fin 0
   \<and> coerceRetention (ustr ''30'') = Fin 30"
  using retentionDaysOf_output [of s now] coerceRetention_cases [of r]
    coerceRetention_nonneg [of r] coerceRetention_digits [of r]
    coerce_abc coerce_minus5 coerce_30
  by blast

theorem retention_coerced_nonnegative_witness:
  "allDigits 10 (ustr ''180'') \<and> digitsValue 10 (ustr ''180'') < 2 ^ 53
   \<and> digitsValue 10 (ustr ''180'') = 180
   \<and> coerceRetention (ustr ''180'') = Fin 180
   \<and> retentionDaysOf (output_doc initialState instantA) = Some (Fin 180)"
proof -
  have d: "allDigits 10 (ustr ''180'')"
    by (simp add: allDigits_def isDigitOf_10 ustr_def)
  have v: "digitsValue 10 (ustr ''180'') = 180"
    by (simp add: digitsValue_def digitValue_def ustr_def)
  have r: "retention initialState = ustr ''180''"
    by (simp add: initialState_def)
  have "allDigits 10 (ustr ''180'') \<and> digitsValue 10 (ustr ''180'') < 2 ^ 53 \<longrightarrow>
        coerceRetention (ustr ''180'') = Fin (of_nat (digitsValue 10 (ustr ''180'')))"
    and o: "retentionDaysOf (output_doc initialState instantA)
        = Some (coerceRetention (retention initialState))"
    using retention_coerced_nonnegative [of initialState instantA "ustr ''180''"] by blast+
  then have c: "coerceRetention (ustr ''180'') = Fin 180"
    using d v by simp
  show ?thesis
    using d v c o by (simp add: r)
qed

theorem retention_fraction_counterexample:
  "retentionDaysOf (output_doc (initialState\<lparr>retention := ustr ''1.5''\<rparr>) instantA)
     = Some (Fin (3 / 2))
   \<and> \<not> isNonNegativeInteger (Fin (3 / 2))"
proof -
  have "\<not> isNonNegativeInteger (Fin (3 / 2))"
    by code_simp
  then show ?thesis
    by (simp add: retentionDaysOf_output coerce_fraction)
qed

subsection \<open>The download name\<close>

text \<open>
  Claim C8. The download is named after the current name followed by \<open>.json\<close>, and after
  \<open>custom-gpt\<close> followed by \<open>.json\<close> when the name is the empty string.
\<close>

theorem download_name:
  "(editor.name s \<noteq> [] \<longrightarrow> fst (downloadJSON s now) = editor.name s @ ustr ''.json'')
   \<and> (editor.name s = [] \<longrightarrow> fst (downloadJSON s now) = ustr ''custom-gpt.json'')"
  by (simp add: downloadJSON_def downloadName_def orElse_def truthy_def ustr_def)

theorem download_name_witness:
  "editor.name initialState \<noteq> []
   \<and> fst (downloadJSON initialState instantA) = ustr ''Untitled Custom GPT.json''
   \<and> editor.name (initialState\<lparr>editor.name := []\<rparr>) = []
   \<and> fst (downloadJSON (initialState\<lparr>editor.name := []\<rparr>) instantA) = ustr ''custom-gpt.json''"
proof -
  have a: "editor.name initialState \<noteq> []"
    by (simp add: initialState_def ustr_def)
  have n: "editor.name initialState @ ustr ''.json'' = ustr ''Untitled Custom GPT.json''"
    by (simp add: initialState_def ustr_def)
  have b: "editor.name (initialState\<lparr>editor.name := []\<rparr>) = []"
    by simp
  show ?thesis
    using a b n download_name [of initialState instantA]
      download_name [of "initialState\<lparr>editor.name := []\<rparr>" instantA]
    by simp
qed

subsection \<open>Sections that are switched off\<close>

lemma exported_documents:
  "jmember ''documents'' (jmember ''knowledge'' (serialize (toValue (output_doc s now))))
     = Some (JArray (map JString (knowledgeDocs s)))"
  by (simp add: output_doc_def toValue_def entry_def optEntry_def knowledgeValue_def
      memoryValue_def personaValue_def safetyValue_def strings_def jmember_def ustr_def
      comp_def)

lemma exported_scope:
  "jmember ''scope'' (jmember ''memory'' (serialize (toValue (output_doc s now))))
     = Some (JString (scopeName (memoryScope s)))"
  by (simp add: output_doc_def toValue_def entry_def optEntry_def knowledgeValue_def
      memoryValue_def personaValue_def safetyValue_def strings_def jmember_def ustr_def
      comp_def)

lemma exported_retention:
  "jmember ''dataRetentionDays'' (jmember ''memory'' (serialize (toValue (output_doc s now))))
     = Some (case coerceRetention (retention s) of Fin q \<Rightarrow> JNumber q | _ \<Rightarrow> JNull)"
  by (simp add: output_doc_def toValue_def entry_def optEntry_def knowledgeValue_def
      memoryValue_def personaValue_def safetyValue_def strings_def jmember_def ustr_def
      comp_def)

text \<open>
  Claim C9. Switching a section off erases nothing: the derived document carries the
  current knowledge documents, memory scope and coerced retention whatever the two
  \<open>enabled\<close> flags are, so they are in the exported JSON after the section is switched off.
\<close>

theorem disabled_sections_still_exported:
  "knowledge (output_doc (s\<lparr>knowledgeEnabled := False\<rparr>) now)
     = Some \<lparr> Knowledge.enabled = False, documents = Some (knowledgeDocs s) \<rparr>
   \<and> memory (output_doc (s\<lparr>memoryEnabled := False\<rparr>) now)
     = Some \<lparr> MemoryPolicy.enabled = False, scope = Some (memoryScope s),
              dataRetentionDays = Some (coerceRetention (retention s)) \<rparr>
   \<and> knowledge (output_doc s now)
     = Some \<lparr> Knowledge.enabled = knowledgeEnabled s, documents = Some (knowledgeDocs s) \<rparr>
   \<and> memory (output_doc s now)
     = Some \<lparr> MemoryPolicy.enabled = memoryEnabled s, scope = Some (memoryScope s),
              dataRetentionDays = Some (coerceRetention (retention s)) \<rparr>
   \<and> jmember ''documents'' (jmember ''knowledge''
        (serialize (toValue (output_doc (s\<lparr>knowledgeEnabled := False\<rparr>) now))))
     = Some (JArray (map JString (knowledgeDocs s)))
   \<and> jmember ''scope'' (jmember ''memory''
        (serialize (toValue (output_doc (s\<lparr>memoryEnabled := False\<rparr>) now))))
     = Some (JString (scopeName (memoryScope s)))
   \<and> jmember ''dataRetentionDays'' (jmember ''memory''
        (serialize (toValue (output_doc (s\<lparr>memoryEnabled := False\<rparr>) now))))
     = Some (case coerceRetention (retention s) of Fin q \<Rightarrow> JNumber q | _ \<Rightarrow> JNull)"
proof -
  have "knowledgeDocs (s\<lparr>knowledgeEnabled := False\<rparr>) = knowledgeDocs s"
    and "memoryScope (s\<lparr>memoryEnabled := False\<rparr>) = memoryScope s"
    and "retention (s\<lparr>memoryEnabled := False\<rparr>) = retention s"
    by simp_all
  then show ?thesis
    using exported_documents [of "s\<lparr>knowledgeEnabled := False\<rparr>" now]
      exported_scope [of "s\<lparr>memoryEnabled := False\<rparr>" now]
      exported_retention [of "s\<lparr>memoryEnabled := False\<rparr>" now]
    by (simp add: output_doc_def)
qed

subsection \<open>The JSON round trip\<close>


lemma safe_roundtrip: "jsonSafe v \<Longrightarrow> \<exists>j. serialize v = Some j \<and> revive j = v"
proof (induction v)
  case (Num n)
  then show ?case by (cases n) (simp_all add: isFinite_def)
next
  case (Arr xs)
  have "map (revive \<circ> (\<lambda>r. case r of None \<Rightarrow> JNull | Some j \<Rightarrow> j) \<circ> serialize) xs = xs"
  proof (rule map_idI)
    fix x assume x: "x \<in> set xs"
    with Arr.prems have "jsonSafe x" by simp
    from Arr.IH [OF x this] show
      "(revive \<circ> (\<lambda>r. case r of None \<Rightarrow> JNull | Some j \<Rightarrow> j) \<circ> serialize) x = x"
      by auto
  qed
  then show ?case by (simp add: comp_assoc)
next
  case (Obj kvs)
  have each: "\<exists>j. serialize (snd kv) = Some j \<and> revive j = snd kv" if "kv \<in> set kvs" for kv
  proof -
    from Obj.prems that have s: "jsonSafe (snd kv)" by simp
    have "snd kv \<in> Basic_BNFs.snds kv" by (cases kv) simp
    from Obj.IH [OF that this s] show ?thesis .
  qed
  have "map (map_prod id revive)
          (concat (map (\<lambda>(k, r). case r of None \<Rightarrow> [] | Some j \<Rightarrow> [(k, j)])
                     (map (map_prod id serialize) kvs))) = kvs"
    using each
  proof (induction kvs)
    case Nil
    then show ?case by simp
  next
    case (Cons kv kvs)
    obtain k v where kv: "kv = (k, v)" by (cases kv)
    from Cons.prems [of kv] kv obtain j where "serialize v = Some j" "revive j = v" by auto
    moreover have "map (map_prod id revive)
          (concat (map (\<lambda>(k, r). case r of None \<Rightarrow> [] | Some j \<Rightarrow> [(k, j)])
                     (map (map_prod id serialize) kvs))) = kvs"
      by (rule Cons.IH) (simp add: Cons.prems)
    ultimately show ?case using kv by (simp add: id_def)
  qed
  then show ?case by simp
qed simp_all

lemma jsonRoundTrip_safe: "jsonSafe v \<Longrightarrow> jsonRoundTrip v = Some v"
  using safe_roundtrip [of v] by (auto simp: jsonRoundTrip_def)

lemma jsonSafe_strings: "jsonSafe (strings xs)"
  by (simp add: strings_def)

lemma jsonSafe_auth: "jsonSafe (authValue a)"
  by (auto simp: authValue_def entry_def optEntry_def split: option.splits)

lemma jsonSafe_action:
  "(\<forall>n. rateLimitPerMinute a = Some n \<longrightarrow> isFinite n) \<Longrightarrow> jsonSafe (actionValue a)"
  by (auto simp: actionValue_def entry_def optEntry_def jsonSafe_auth jsonSafe_strings
      split: option.splits)

lemma jsonSafe_starter: "jsonSafe (starterValue c)"
  by (auto simp: starterValue_def entry_def)

lemma Number_empty: "Number [] = Fin 0"
  by (simp add: Number_def trim_def trimStart_def trimEnd_def)

lemma coerceRetention_finite: "isFinite (Number r) \<Longrightarrow> isFinite (coerceRetention r)"
  by (cases "Number r") (simp_all add: coerceRetention_cases isFinite_def)

lemma numberInputValue_finite: "isFinite (coerceRetention (numberInputValue raw))"
proof -
  have "isFinite (Number [])"
    by (simp add: Number_empty isFinite_def)
  then have "isFinite (coerceRetention [])"
    by (rule coerceRetention_finite)
  then show ?thesis
    by (auto simp: numberInputValue_def intro: coerceRetention_finite)
qed

lemma set_removeAt: "set (removeAt i xs) \<subseteq> set xs"
  by (auto simp: removeAt_eq dest: in_set_takeD in_set_dropD)

lemma editorInv_initial: "editorInv initialState"
proof -
  have "allDigits 10 (ustr ''180'')"
    by (simp add: allDigits_def isDigitOf_def ustr_def)
  moreover have "digitsValue 10 (ustr ''180'') = 180"
    by (simp add: digitsValue_def digitValue_def ustr_def)
  ultimately have "coerceRetention (ustr ''180'') = Fin 180"
    using coerceRetention_digits [of "ustr ''180''"] by simp
  then show ?thesis
    by (simp add: editorInv_def initialState_def emptyActionDraft_def isFinite_def)
qed

lemma editorInv_add: "editorInv s \<Longrightarrow> editorInv (addItem f s)"
  by (cases f) (auto simp: editorInv_def addItem_def addAction_def addDoc_def addPhrase_def
      addStarter_def addSample_def addTag_def emptyActionDraft_def)

lemma editorInv_remove: "editorInv s \<Longrightarrow> editorInv (removeItem f i s)"
proof (cases f)
  case Actions
  assume "editorInv s"
  then show ?thesis
    using set_removeAt [of i "actions s"] Actions
    by (auto simp: editorInv_def removeItem_def removeAction_def list_all_iff)
qed (simp_all add: editorInv_def removeItem_def removeDoc_def removePhrase_def
    removeStarter_def removeSample_def removeTag_def)

lemma editorInv_toggleTool: "editorInv s \<Longrightarrow> editorInv (toggleTool s t)"
  by (cases t) (simp_all add: editorInv_def toggleTool_def setTool_def)

lemma editorInv_step: "editorInv s \<Longrightarrow> editorInv (step s e)"
proof (cases e)
  case (RetentionInput raw)
  assume "editorInv s"
  then show ?thesis
    using RetentionInput numberInputValue_finite [of raw] by (simp add: editorInv_def)
next
  case (ToggleTool t)
  assume "editorInv s"
  then show ?thesis using ToggleTool by (simp add: editorInv_toggleTool)
next
  case (Add f)
  assume "editorInv s"
  then show ?thesis using Add by (simp add: editorInv_add)
next
  case (Remove f i)
  assume "editorInv s"
  then show ?thesis using Remove by (simp add: editorInv_remove)
qed (simp_all add: editorInv_def)

lemma editorInv_run: "editorInv (run es)"
proof (induction es rule: rev_induct)
  case Nil
  then show ?case by (simp add: run_def editorInv_initial)
next
  case (snoc e es)
  then show ?case using editorInv_step [of "run es" e] by (simp add: run_def)
qed

lemma jsonSafe_output_at:
  assumes "editorInv s"
  shows "jsonSafe (toValue ((output_doc s now)\<lparr>createdAt := c\<rparr>))"
proof -
  have a: "jsonSafe (actionValue a)" if "a \<in> set (actions s)" for a
    using assms that by (intro jsonSafe_action) (simp add: editorInv_def list_all_iff)
  show ?thesis
    using assms a
    by (cases c) (auto simp: toValue_def output_doc_def entry_def optEntry_def personaValue_def
        knowledgeValue_def memoryValue_def safetyValue_def jsonSafe_strings jsonSafe_starter
        editorInv_def)
qed

text \<open>
  Without the sanitising input a retention that is not finite would break the round trip.
\<close>

lemma roundtrip_retention_finite:
  assumes "jsonRoundTrip (toValue (output_doc s now)) = Some (toValue (output_doc s now))"
  shows "isFinite (coerceRetention (retention s))"
proof -
  from assms
  have "revive (case coerceRetention (retention s) of Fin q \<Rightarrow> JNumber q | _ \<Rightarrow> JNull)
          = Num (coerceRetention (retention s))"
    by (simp add: jsonRoundTrip_def toValue_def output_doc_def entry_def optEntry_def
        memoryValue_def knowledgeValue_def personaValue_def safetyValue_def strings_def
        comp_def)
  then show ?thesis
    by (cases "coerceRetention (retention s)") (simp_all add: isFinite_def)
qed

text \<open>
  Claim C7. For every state that the editor reaches from its initial state and every
  instant, serialising the derived document and parsing the text back gives the document
  itself; compared with a derivation of the same state at another instant, the parsed
  document agrees in everything but \<open>createdAt\<close>.
\<close>

theorem json_roundtrip_reachable:
  "jsonRoundTrip (toValue (output_doc (run es) now)) = Some (toValue (output_doc (run es) now))
   \<and> jsonRoundTrip (toValue ((output_doc (run es) now)\<lparr>createdAt := c\<rparr>))
       = Some (toValue ((output_doc (run es) now')\<lparr>createdAt := c\<rparr>))"
proof -
  have i: "editorInv (run es)" by (rule editorInv_run)
  have "(output_doc (run es) now)\<lparr>createdAt := Some now\<rparr> = output_doc (run es) now"
    by (simp add: output_doc_def)
  then have a: "jsonSafe (toValue (output_doc (run es) now))"
    using jsonSafe_output_at [OF i, where now = now and c = "Some now"] by simp
  have e: "(output_doc (run es) now)\<lparr>createdAt := c\<rparr> = (output_doc (run es) now')\<lparr>createdAt := c\<rparr>"
    by (simp add: output_doc_def)
  have b: "jsonSafe (toValue ((output_doc (run es) now)\<lparr>createdAt := c\<rparr>))"
    by (rule jsonSafe_output_at [OF i])
  show ?thesis
    using jsonRoundTrip_safe [OF a] jsonRoundTrip_safe [OF b] e by simp
qed

theorem json_roundtrip_reachable_witness:
  "retention (run [ToggleMemory, RetentionInput (ustr ''Infinity'')]) = []
   \<and> retentionDaysOf (output_doc (run [ToggleMemory, RetentionInput (ustr ''Infinity'')]) instantA)
       = Some (Fin 0)
   \<and> actions (run [ToggleMemory, RetentionInput (ustr ''1.5''), DraftName (ustr ''Lookup''),
         Add Actions])
       = [emptyActionDraft\<lparr>CustomAction.name := ustr ''Lookup''\<rparr>]
   \<and> jsonRoundTrip (toValue (output_doc
         (run [ToggleMemory, RetentionInput (ustr ''1.5''), DraftName (ustr ''Lookup''),
           Add Actions]) instantA))
       = Some (toValue (output_doc
         (run [ToggleMemory, RetentionInput (ustr ''1.5''), DraftName (ustr ''Lookup''),
           Add Actions]) instantA))"
proof -
  have v: "\<not> validFloatingPointNumber (ustr ''Infinity'')"
    by (simp add: validFloatingPointNumber_def isDigitOf_def ustr_def)
  have m: "memoryEnabled (step initialState ToggleMemory)"
    by (simp add: initialState_def)
  have a: "retention (run [ToggleMemory, RetentionInput (ustr ''Infinity'')]) = []"
    using v m by (simp add: run_def numberInputValue_def)
  have "coerceRetention [] = Fin 0"
    by (simp add: coerceRetention_def Number_empty numOr_def mathMax_def)
  then have b: "retentionDaysOf
      (output_doc (run [ToggleMemory, RetentionInput (ustr ''Infinity'')]) instantA)
       = Some (Fin 0)"
    by (simp add: retentionDaysOf_output a)
  have "trim (ustr ''Lookup'') \<noteq> []"
    by (simp add: trim_def trimStart_def trimEnd_def isStrWhiteSpaceChar_def ustr_def)
  then have c: "actions (run [ToggleMemory, RetentionInput (ustr ''1.5''),
        DraftName (ustr ''Lookup''), Add Actions])
       = [emptyActionDraft\<lparr>CustomAction.name := ustr ''Lookup''\<rparr>]"
    by (simp add: run_def addItem_def addAction_def truthy_def initialState_def)
  show ?thesis
    using a b c json_roundtrip_reachable [of "[ToggleMemory, RetentionInput (ustr ''1.5''),
        DraftName (ustr ''Lookup''), Add Actions]" instantA]
    by blast
qed

end
